theory Spec2Isabelle
  imports Main "HOL-Library.Word"
begin

section \<open>Data model of the BoxStorageDAO contract (session_3/dao/app.py)\<close>

text \<open>
  Byte strings are lists of 8-bit characters, TEAL uint64 values are 64-bit words.
  An address is the byte string the AVM hands to the program (32 bytes on the ledger;
  nothing below depends on the length).
\<close>

type_synonym bytes = string
type_synonym address = bytes
type_synonym uint64 = "64 word"

text \<open>class NFTProposal(abi.NamedTuple)\<close>

record NFTProposal =
  name :: bytes
  unit_name :: bytes
  reserve :: address

text \<open>
  class DAOState: five global values and six box mappings. A box mapping is a partial map
  from the encoded key (the bytes that follow the mapping's prefix in the box name) to the
  typed value; the six prefixes p-, v-, h-, up-, uv-, uh- differ pairwise within their
  first two bytes, so the six name spaces are disjoint and are kept as six maps.
\<close>

record DAOState =
  winning_proposal_votes :: uint64
  winning_proposal :: bytes
  winning_update_votes :: uint64
  winning_update :: bytes
  minted_asa :: uint64
  proposals :: "bytes \<rightharpoonup> NFTProposal"
  votes :: "bytes \<rightharpoonup> uint64"
  has_voted :: "address \<rightharpoonup> bool"
  update_proposals :: "bytes \<rightharpoonup> address"
  update_votes :: "bytes \<rightharpoonup> uint64"
  update_has_voted :: "address \<rightharpoonup> bool"

text \<open>abi.PaymentTransaction: the two fields the contract reads.\<close>

record payment =
  receiver :: address
  amount :: uint64

text \<open>
  The inner transactions the contract builds: the asset creation of mint (name, unit name,
  reserve, manager, url, total, fee) and the asset reconfiguration of update (asset,
  reserve, manager, fee).
\<close>

datatype inner_txn =
    AssetCreate bytes bytes bytes address bytes uint64 uint64
  | AssetReconfig uint64 bytes address uint64

text \<open>
  What the hosting ledger supplies to one call: Txn.sender(),
  Global.current_application_address(), AccountParam.minBalance of the application
  account as a function of the contract's storage, and the outcome of
  InnerTxnBuilder.Execute (None when the ledger rejects the inner transaction, otherwise
  the value InnerTxn.created_asset_id() reads afterwards).
\<close>

record env =
  sender :: address
  app_address :: address
  min_balance :: "DAOState \<Rightarrow> uint64"
  submit :: "inner_txn \<Rightarrow> uint64 option"

text \<open>
  Every Assert of the source is one branch returning an error; the names follow the
  taxonomy of the specification, with two more for the failures of the virtual machine
  itself (uint64 arithmetic out of range, inner transaction rejected).
\<close>

datatype error =
    PhaseViolation
  | DuplicateKey
  | AlreadyVoted
  | InsufficientFunding
  | MissingReference
  | ArithmeticPanic
  | InnerTxnRejected

type_synonym result = "error + DAOState \<times> inner_txn list"

section \<open>ABI encodings used by the contract\<close>

text \<open>Itob: the 8-byte big-endian encoding of a uint64.\<close>

definition itob :: "uint64 \<Rightarrow> bytes" where
  "itob n = map (\<lambda>i. char_of (unat n div 256 ^ i)) [7, 6, 5, 4, 3, 2, 1, 0]"

text \<open>abi.Tuple2[abi.Address, abi.Uint64].encode(): both components are static.\<close>

definition encode_key :: "address \<Rightarrow> uint64 \<Rightarrow> bytes" where
  "encode_key addr proposal_id = addr @ itob proposal_id"

definition u16 :: "nat \<Rightarrow> bytes" where
  "u16 n = [char_of (n div 256), char_of n]"

definition encode_string :: "bytes \<Rightarrow> bytes" where
  "encode_string s = u16 (length s) @ s"

text \<open>
  The box contents of a proposals entry: the ABI encoding of the tuple
  (string, string, address), two 2-byte offsets and the address in the head, the two
  length-prefixed strings in the tail.
\<close>

definition encode_NFTProposal :: "NFTProposal \<Rightarrow> bytes" where
  "encode_NFTProposal p =
     u16 (4 + length (reserve p))
     @ u16 (4 + length (reserve p) + length (encode_string (name p)))
     @ reserve p
     @ encode_string (name p)
     @ encode_string (unit_name p)"

definition asset_url :: bytes where
  "asset_url = ''template-ipfs://{ipfscid:1:dag-pb:reserve:sha2-256}/metadata.json#arc3''"

section \<open>The external methods\<close>

text \<open>create(): app.initialize_global_state(); no box exists yet.\<close>

definition create :: DAOState where
  "create = \<lparr>winning_proposal_votes = 0, winning_proposal = [],
             winning_update_votes = 0, winning_update = [], minted_asa = 0,
             proposals = Map.empty, votes = Map.empty, has_voted = Map.empty,
             update_proposals = Map.empty, update_votes = Map.empty,
             update_has_voted = Map.empty\<rparr>"

text \<open>
  add_proposal (lines 70-93). The uint64 subtraction of the last Assert fails in the
  virtual machine when it would go below zero.
\<close>

definition add_proposal :: "env \<Rightarrow> NFTProposal \<Rightarrow> uint64 \<Rightarrow> payment \<Rightarrow> DAOState \<Rightarrow> result" where
  "add_proposal e proposal proposal_id mbr_payment s =
    (if minted_asa s \<noteq> 0 then Inl PhaseViolation
     else if receiver mbr_payment \<noteq> app_address e then Inl InsufficientFunding
     else
       let pre_mbr = min_balance e s;
           proposal_key = encode_key (sender e) proposal_id
       in if proposals s proposal_key \<noteq> None then Inl DuplicateKey
          else
            let s' = s\<lparr>proposals := (proposals s)(proposal_key \<mapsto> proposal)\<rparr>;
                current_mbr = min_balance e s'
            in if current_mbr < pre_mbr then Inl ArithmeticPanic
               else if amount mbr_payment \<ge> current_mbr - pre_mbr then Inr (s', [])
               else Inl InsufficientFunding)"

text \<open>
  vote (lines 96-126). store_into asserts that the box exists; the uint64 addition fails
  in the virtual machine when it would exceed 2^64 - 1.
\<close>

definition vote :: "env \<Rightarrow> address \<Rightarrow> uint64 \<Rightarrow> DAOState \<Rightarrow> result" where
  "vote e proposer proposal_id s =
    (if minted_asa s \<noteq> 0 then Inl PhaseViolation
     else
       let proposal_key = encode_key proposer proposal_id
       in if has_voted s (sender e) \<noteq> None then Inl AlreadyVoted
          else
            let s1 = (if votes s proposal_key = None
                      then s\<lparr>votes := (votes s)(proposal_key \<mapsto> 0)\<rparr> else s)
            in case votes s1 proposal_key of
                 None \<Rightarrow> Inl MissingReference
               | Some current_votes \<Rightarrow>
                   if current_votes = - 1 then Inl ArithmeticPanic
                   else
                     let total_votes = current_votes + 1;
                         s2 = s1\<lparr>votes := (votes s1)(proposal_key \<mapsto> total_votes)\<rparr>;
                         s3 = (if total_votes > winning_proposal_votes s2
                               then s2\<lparr>winning_proposal_votes := total_votes,
                                       winning_proposal := proposal_key\<rparr>
                               else s2)
                     in Inr (s3\<lparr>has_voted := (has_voted s3)(sender e \<mapsto> True)\<rparr>, []))"

text \<open>
  mint (lines 129-162). proposal_key.decode stores the bytes of winning_proposal as they
  are, so the box looked up is the one named by those bytes.
\<close>

definition mint :: "env \<Rightarrow> DAOState \<Rightarrow> result" where
  "mint e s =
    (if minted_asa s \<noteq> 0 then Inl PhaseViolation
     else
       let proposal_key = winning_proposal s
       in case proposals s proposal_key of
            None \<Rightarrow> Inl MissingReference
          | Some proposal \<Rightarrow>
              let tx = AssetCreate (name proposal) (unit_name proposal) (reserve proposal)
                         (app_address e) asset_url 1 0
              in case submit e tx of
                   None \<Rightarrow> Inl InnerTxnRejected
                 | Some created_asset_id \<Rightarrow> Inr (s\<lparr>minted_asa := created_asset_id\<rparr>, [tx]))"

text \<open>
  update (lines 165-185). The box read is app.state.proposals[update_proposal_key]
  (line 175); store_into an abi.Address keeps the box contents as they are, so the
  reserve handed to the inner transaction is the encoded NFTProposal. The asa argument
  is not used.
\<close>

definition update :: "env \<Rightarrow> uint64 \<Rightarrow> DAOState \<Rightarrow> result" where
  "update e asa s =
    (if minted_asa s = 0 then Inl PhaseViolation
     else
       let update_proposal_key = winning_update s
       in case proposals s update_proposal_key of
            None \<Rightarrow> Inl MissingReference
          | Some proposal \<Rightarrow>
              let reserve_bytes = encode_NFTProposal proposal;
                  tx = AssetReconfig (minted_asa s) reserve_bytes (app_address e) 0
              in case submit e tx of
                   None \<Rightarrow> Inl InnerTxnRejected
                 | Some _ \<Rightarrow> Inr (s, [tx]))"

text \<open>add_update (lines 188-211).\<close>

definition add_update :: "env \<Rightarrow> address \<Rightarrow> uint64 \<Rightarrow> payment \<Rightarrow> DAOState \<Rightarrow> result" where
  "add_update e reserve_addr proposal_id mbr_payment s =
    (if minted_asa s = 0 then Inl PhaseViolation
     else if receiver mbr_payment \<noteq> app_address e then Inl InsufficientFunding
     else
       let pre_mbr = min_balance e s;
           proposal_key = encode_key (sender e) proposal_id
       in if update_proposals s proposal_key \<noteq> None then Inl DuplicateKey
          else
            let s' = s\<lparr>update_proposals := (update_proposals s)(proposal_key \<mapsto> reserve_addr)\<rparr>;
                current_mbr = min_balance e s'
            in if current_mbr < pre_mbr then Inl ArithmeticPanic
               else if amount mbr_payment \<ge> current_mbr - pre_mbr then Inr (s', [])
               else Inl InsufficientFunding)"

text \<open>vote_on_update (lines 214-244).\<close>

definition vote_on_update :: "env \<Rightarrow> address \<Rightarrow> uint64 \<Rightarrow> DAOState \<Rightarrow> result" where
  "vote_on_update e proposer proposal_id s =
    (if minted_asa s \<noteq> 0 then Inl PhaseViolation
     else
       let proposal_key = encode_key proposer proposal_id
       in if update_has_voted s (sender e) \<noteq> None then Inl AlreadyVoted
          else
            let s1 = (if update_votes s proposal_key = None
                      then s\<lparr>update_votes := (update_votes s)(proposal_key \<mapsto> 0)\<rparr> else s)
            in case update_votes s1 proposal_key of
                 None \<Rightarrow> Inl MissingReference
               | Some current_votes \<Rightarrow>
                   if current_votes = - 1 then Inl ArithmeticPanic
                   else
                     let total_votes = current_votes + 1;
                         s2 = s1\<lparr>update_votes := (update_votes s1)(proposal_key \<mapsto> total_votes)\<rparr>;
                         s3 = (if total_votes > winning_update_votes s2
                               then s2\<lparr>winning_update_votes := total_votes,
                                       winning_update := proposal_key\<rparr>
                               else s2)
                     in Inr (s3\<lparr>update_has_voted := (update_has_voted s3)(sender e \<mapsto> True)\<rparr>, []))"

section \<open>Calls, atomic commit and call sequences\<close>

datatype call =
    AddProposal NFTProposal uint64 payment
  | Vote address uint64
  | Mint
  | Update uint64
  | AddUpdate address uint64 payment
  | VoteOnUpdate address uint64

fun exec :: "env \<Rightarrow> call \<Rightarrow> DAOState \<Rightarrow> result" where
  "exec e (AddProposal p i pay) s = add_proposal e p i pay s"
| "exec e (Vote a i) s = vote e a i s"
| "exec e Mint s = mint e s"
| "exec e (Update asa) s = update e asa s"
| "exec e (AddUpdate r i pay) s = add_update e r i pay s"
| "exec e (VoteOnUpdate a i) s = vote_on_update e a i s"

text \<open>
  A call that fails is reverted as a whole by the ledger: the persistent state after a
  call is the new state when the call succeeds and the old one when it aborts.
\<close>

definition commit :: "env \<Rightarrow> call \<Rightarrow> DAOState \<Rightarrow> DAOState" where
  "commit e c s = (case exec e c s of Inl _ \<Rightarrow> s | Inr (s', _) \<Rightarrow> s')"

fun run :: "(env \<times> call) list \<Rightarrow> DAOState \<Rightarrow> DAOState" where
  "run [] s = s"
| "run ((e, c) # cs) s = run cs (commit e c s)"

text \<open>The states reachable from create() by successful calls.\<close>

inductive reachable :: "DAOState \<Rightarrow> bool" where
  reachable_create: "reachable create"
| reachable_call: "reachable s \<Longrightarrow> exec e c s = Inr (s', txs) \<Longrightarrow> reachable s'"

text \<open>
  The state with the proposal ballot (votes, has_voted, winning_proposal_votes,
  winning_proposal) and the update ballot (update_votes, update_has_voted,
  winning_update_votes, winning_update) exchanged; used to compare vote_on_update with
  vote.
\<close>

definition swap_ballots :: "DAOState \<Rightarrow> DAOState" where
  "swap_ballots s =
     s\<lparr>winning_proposal_votes := winning_update_votes s,
       winning_proposal := winning_update s,
       winning_update_votes := winning_proposal_votes s,
       winning_update := winning_proposal s,
       votes := update_votes s,
       has_voted := update_has_voted s,
       update_votes := votes s,
       update_has_voted := has_voted s\<rparr>"

text \<open>The largest tally stored in a votes mapping, 0 when the mapping is empty.\<close>

definition max_tally :: "(bytes \<rightharpoonup> uint64) \<Rightarrow> uint64" where
  "max_tally m = (if m = Map.empty then 0 else Max (ran m))"

text \<open>Two concrete environments and payments for the examples.\<close>

definition alice :: address where "alice = ''AAAAAAAAAAAAAAAAAAAAAAAAAAAAAAAA''"
definition bob :: address where "bob = ''BBBBBBBBBBBBBBBBBBBBBBBBBBBBBBBB''"
definition dao :: address where "dao = ''DDDDDDDDDDDDDDDDDDDDDDDDDDDDDDDD''"

definition flat_env :: "address \<Rightarrow> env" where
  "flat_env a = \<lparr>sender = a, app_address = dao, min_balance = (\<lambda>_. 100000),
                 submit = (\<lambda>_. Some 7)\<rparr>"

definition free_payment :: payment where
  "free_payment = \<lparr>receiver = dao, amount = 0\<rparr>"

definition art :: NFTProposal where
  "art = \<lparr>name = ''Art'', unit_name = ''ART'', reserve = alice\<rparr>"

text \<open>The tally a vote adds to: the stored one, or 0 for a key that has none yet.\<close>

definition tally_of :: "(bytes \<rightharpoonup> uint64) \<Rightarrow> bytes \<Rightarrow> uint64" where
  "tally_of m k = (case m k of None \<Rightarrow> 0 | Some n \<Rightarrow> n)"

text \<open>
  The relation kept between a votes mapping, the recorded winning count and the recorded
  winning key.
\<close>

definition tally_inv :: "(bytes \<rightharpoonup> uint64) \<Rightarrow> uint64 \<Rightarrow> bytes \<Rightarrow> bool" where
  "tally_inv m w k \<longleftrightarrow>
     finite (dom m) \<and> (\<forall>x n. m x = Some n \<longrightarrow> n \<le> w)
     \<and> (if w = 0 then m = Map.empty else m k = Some w \<and> (\<exists>a i. k = encode_key a i))"

text \<open>
  An environment whose minimum balance grows by 18500 when the box of sequence id 1 of
  its sender exists, and a payment to the contract of a given amount.
\<close>

definition metered_env :: "address \<Rightarrow> env" where
  "metered_env a =
     \<lparr>sender = a, app_address = dao,
      min_balance = (\<lambda>s. if proposals s (encode_key a 1) = None
                              \<and> update_proposals s (encode_key a 1) = None
                           then 100000 else 118500),
      submit = (\<lambda>_. Some 7)\<rparr>"

definition payment_of :: "uint64 \<Rightarrow> payment" where
  "payment_of n = \<lparr>receiver = dao, amount = n\<rparr>"

text \<open>Call sequences and states of the examples.\<close>

definition open_calls :: "(env \<times> call) list" where
  "open_calls = [(flat_env alice, AddProposal art 1 free_payment),
                 (flat_env bob, Vote alice 1)]"

definition mint_calls :: "(env \<times> call) list" where
  "mint_calls = [(flat_env alice, AddProposal art 1 free_payment),
                 (flat_env bob, Vote alice 1),
                 (flat_env bob, VoteOnUpdate alice 1),
                 (flat_env alice, Mint)]"

definition lifecycle_calls :: "(env \<times> call) list" where
  "lifecycle_calls = [(flat_env alice, AddProposal art 1 free_payment),
                (flat_env bob, Vote alice 1),
                (flat_env bob, VoteOnUpdate alice 2),
                (flat_env alice, Mint),
                (flat_env alice, AddUpdate bob 2 free_payment)]"

definition first_vote :: DAOState where
  "first_vote = create\<lparr>winning_proposal_votes := 1, winning_proposal := encode_key alice 1,
                        votes := [encode_key alice 1 \<mapsto> 1], has_voted := [bob \<mapsto> True]\<rparr>"

section \<open>What a vote does\<close>

lemma vote_result:
  "vote e a i s =
    (if minted_asa s \<noteq> 0 then Inl PhaseViolation
     else if has_voted s (sender e) \<noteq> None then Inl AlreadyVoted
     else if tally_of (votes s) (encode_key a i) = - 1 then Inl ArithmeticPanic
     else Inr (s\<lparr>winning_proposal_votes :=
                    (if winning_proposal_votes s < tally_of (votes s) (encode_key a i) + 1
                     then tally_of (votes s) (encode_key a i) + 1 else winning_proposal_votes s),
                 winning_proposal :=
                    (if winning_proposal_votes s < tally_of (votes s) (encode_key a i) + 1
                     then encode_key a i else winning_proposal s),
                 votes := (votes s)(encode_key a i \<mapsto> tally_of (votes s) (encode_key a i) + 1),
                 has_voted := (has_voted s)(sender e \<mapsto> True)\<rparr>, []))"
  by (cases "votes s (encode_key a i)") (simp_all add: vote_def tally_of_def Let_def)

lemma vote_on_update_result:
  "vote_on_update e a i s =
    (if minted_asa s \<noteq> 0 then Inl PhaseViolation
     else if update_has_voted s (sender e) \<noteq> None then Inl AlreadyVoted
     else if tally_of (update_votes s) (encode_key a i) = - 1 then Inl ArithmeticPanic
     else Inr (s\<lparr>winning_update_votes :=
                    (if winning_update_votes s < tally_of (update_votes s) (encode_key a i) + 1
                     then tally_of (update_votes s) (encode_key a i) + 1 else winning_update_votes s),
                 winning_update :=
                    (if winning_update_votes s < tally_of (update_votes s) (encode_key a i) + 1
                     then encode_key a i else winning_update s),
                 update_votes := (update_votes s)(encode_key a i \<mapsto> tally_of (update_votes s) (encode_key a i) + 1),
                 update_has_voted := (update_has_voted s)(sender e \<mapsto> True)\<rparr>, []))"
  by (cases "update_votes s (encode_key a i)") (simp_all add: vote_on_update_def tally_of_def Let_def)

lemma inc_nonzero: "(t::uint64) \<noteq> - 1 \<Longrightarrow> t + 1 \<noteq> 0"
  by (metis add.commute add_eq_0_iff)

lemma inc_greater: "(t::uint64) \<noteq> - 1 \<Longrightarrow> t < t + 1"
  using inc_less_eq_self_iff_eq [of t] by (simp add: not_le)

section \<open>The example states\<close>

lemmas demo_defs = create_def flat_env_def free_payment_def art_def commit_def
  add_proposal_def vote_result vote_on_update_result mint_def update_def add_update_def
  tally_of_def encode_key_def itob_def alice_def bob_def dao_def Let_def

lemma key_facts:
  "encode_key alice 1 \<noteq> encode_key bob 1" "encode_key alice 1 \<noteq> encode_key alice 2"
  "alice \<noteq> bob"
  by (simp_all add: encode_key_def itob_def alice_def bob_def)

lemma open_state:
  "run open_calls create =
     \<lparr>winning_proposal_votes = 1, winning_proposal = encode_key alice 1,
      winning_update_votes = 0, winning_update = [], minted_asa = 0,
      proposals = [encode_key alice 1 \<mapsto> art],
      votes = [encode_key alice 1 \<mapsto> 1],
      has_voted = [bob \<mapsto> True],
      update_proposals = Map.empty,
      update_votes = Map.empty,
      update_has_voted = Map.empty\<rparr>"
  by (simp add: open_calls_def demo_defs)

lemma mint_state:
  "run mint_calls create =
     \<lparr>winning_proposal_votes = 1, winning_proposal = encode_key alice 1,
      winning_update_votes = 1, winning_update = encode_key alice 1, minted_asa = 7,
      proposals = [encode_key alice 1 \<mapsto> art],
      votes = [encode_key alice 1 \<mapsto> 1],
      has_voted = [bob \<mapsto> True],
      update_proposals = Map.empty,
      update_votes = [encode_key alice 1 \<mapsto> 1],
      update_has_voted = [bob \<mapsto> True]\<rparr>"
  by (simp add: mint_calls_def demo_defs)

lemma lifecycle_state:
  "run lifecycle_calls create =
     \<lparr>winning_proposal_votes = 1, winning_proposal = encode_key alice 1,
      winning_update_votes = 1, winning_update = encode_key alice 2, minted_asa = 7,
      proposals = [encode_key alice 1 \<mapsto> art],
      votes = [encode_key alice 1 \<mapsto> 1],
      has_voted = [bob \<mapsto> True],
      update_proposals = [encode_key alice 2 \<mapsto> bob],
      update_votes = [encode_key alice 2 \<mapsto> 1],
      update_has_voted = [bob \<mapsto> True]\<rparr>"
  by (simp add: lifecycle_calls_def demo_defs)

lemma first_vote_result: "vote (flat_env bob) alice 1 create = Inr (first_vote, [])"
  by (simp add: first_vote_def vote_result create_def tally_of_def flat_env_def)

lemma first_vote_open:
  "minted_asa (run [(flat_env alice, Vote bob 1)] first_vote) = 0"
  using key_facts by (simp add: first_vote_def demo_defs)

lemma first_vote_minted:
  "minted_asa (run [(flat_env alice, AddProposal art 1 free_payment), (flat_env alice, Mint)]
                 first_vote) = 7"
  by (simp add: first_vote_def demo_defs)

section \<open>Phase gating\<close>

text \<open>
  C7: in every state, add_proposal and vote abort when minted_asa is not 0, add_update and
  update abort when minted_asa is 0, and the persistent state after the aborted call is
  the state before it.
\<close>

theorem phase_gating:
  "(minted_asa s \<noteq> 0 \<longrightarrow>
      add_proposal e p i pay s = Inl PhaseViolation \<and> vote e a i s = Inl PhaseViolation
      \<and> commit e (AddProposal p i pay) s = s \<and> commit e (Vote a i) s = s)
   \<and> (minted_asa s = 0 \<longrightarrow>
      add_update e r i pay s = Inl PhaseViolation \<and> update e asa s = Inl PhaseViolation
      \<and> commit e (AddUpdate r i pay) s = s \<and> commit e (Update asa) s = s)"
  by (simp add: add_proposal_def vote_def add_update_def update_def commit_def)

theorem phase_gating_witness:
  "minted_asa (create\<lparr>minted_asa := 7\<rparr>) \<noteq> 0
   \<and> add_proposal (flat_env alice) art 1 free_payment (create\<lparr>minted_asa := 7\<rparr>) = Inl PhaseViolation
   \<and> vote (flat_env alice) alice 1 (create\<lparr>minted_asa := 7\<rparr>) = Inl PhaseViolation
   \<and> commit (flat_env alice) (AddProposal art 1 free_payment) (create\<lparr>minted_asa := 7\<rparr>)
       = create\<lparr>minted_asa := 7\<rparr>
   \<and> commit (flat_env alice) (Vote alice 1) (create\<lparr>minted_asa := 7\<rparr>) = create\<lparr>minted_asa := 7\<rparr>
   \<and> minted_asa create = 0
   \<and> add_update (flat_env alice) bob 1 free_payment create = Inl PhaseViolation
   \<and> update (flat_env alice) 7 create = Inl PhaseViolation
   \<and> commit (flat_env alice) (AddUpdate bob 1 free_payment) create = create
   \<and> commit (flat_env alice) (Update 7) create = create"
  using phase_gating [of "create\<lparr>minted_asa := 7\<rparr>" "flat_env alice" art 1 free_payment alice bob 7]
        phase_gating [of create "flat_env alice" art 1 free_payment alice bob 7]
  by (simp add: create_def)

section \<open>The update executor\<close>

text \<open>
  C1 (update takes the reserve it applies from update_proposals at the key held in
  winning_update): the source reads app.state.proposals at that key (line 175). After
  the calls of lifecycle_calls the winning update key has an entry in update_proposals
  (reserve bob) and none in proposals, and update aborts on the missing box.
\<close>

theorem update_reads_proposals:
  "minted_asa (run lifecycle_calls create) = 7
   \<and> update_proposals (run lifecycle_calls create) (winning_update (run lifecycle_calls create)) = Some bob
   \<and> update (flat_env alice) 7 (run lifecycle_calls create) = Inl MissingReference"
  by (simp add: lifecycle_state) (simp add: demo_defs)

text \<open>
  C10: a successful update returns the state it was given, all five global values and all
  six mappings, and issues exactly one inner transaction, the reconfiguration of the minted
  asset with the contract as manager and fee 0; the same call on the resulting state
  succeeds again with the same outcome.
\<close>

theorem update_frame:
  "update e asa s = Inr (s', txs) \<longrightarrow>
     s' = s
     \<and> (\<exists>r. txs = [AssetReconfig (minted_asa s) r (app_address e) 0])
     \<and> update e asa s' = Inr (s', txs)"
  by (auto simp add: update_def Let_def split: option.splits if_splits)

theorem update_frame_witness:
  "update (flat_env alice) 7 (run mint_calls create)
     = Inr (run mint_calls create, [AssetReconfig 7 (encode_NFTProposal art) dao 0])
   \<and> (\<exists>r. [AssetReconfig 7 (encode_NFTProposal art) dao 0]
            = [AssetReconfig (minted_asa (run mint_calls create)) r (app_address (flat_env alice)) 0])"
proof -
  have u: "update (flat_env alice) 7 (run mint_calls create)
     = Inr (run mint_calls create, [AssetReconfig 7 (encode_NFTProposal art) dao 0])"
    by (simp add: mint_state) (simp add: update_def flat_env_def)
  from update_frame [of "flat_env alice" 7 "run mint_calls create" "run mint_calls create"
       "[AssetReconfig 7 (encode_NFTProposal art) dao 0]"] u
  show ?thesis by blast
qed

section \<open>vote_on_update\<close>

text \<open>
  C2: vote_on_update aborts on its first Assert whenever minted_asa is not 0, and in every
  state it is vote with the two ballots exchanged: the same lazily initialised tally, the
  same increment and the same strict comparison, on update_votes, update_has_voted,
  winning_update_votes and winning_update.
\<close>

theorem vote_on_update_gate:
  "(minted_asa s \<noteq> 0 \<longrightarrow> vote_on_update e a i s = Inl PhaseViolation)
   \<and> vote_on_update e a i s
       = map_sum id (\<lambda>(s', txs). (swap_ballots s', txs)) (vote e a i (swap_ballots s))"
  by (simp add: vote_result vote_on_update_result swap_ballots_def)

theorem vote_on_update_gate_witness:
  "minted_asa (create\<lparr>minted_asa := 7\<rparr>) \<noteq> 0
   \<and> vote_on_update (flat_env alice) bob 1 (create\<lparr>minted_asa := 7\<rparr>) = Inl PhaseViolation
   \<and> vote_on_update (flat_env alice) bob 1 create
       = map_sum id (\<lambda>(s', txs). (swap_ballots s', txs))
           (vote (flat_env alice) bob 1 (swap_ballots create))"
  using vote_on_update_gate [of "create\<lparr>minted_asa := 7\<rparr>" "flat_env alice" bob 1]
        vote_on_update_gate [of create "flat_env alice" bob 1]
  by (simp add: create_def)

section \<open>Funding of a submission\<close>

lemma covers_iff:
  fixes pre cur amt :: uint64
  assumes "\<not> cur < pre"
  shows "(cur - pre \<le> amt) = (uint cur - uint pre \<le> uint amt)"
  using assms by (simp add: word_le_def word_less_def uint_sub_if')

lemma funding_check:
  fixes pre cur amt :: uint64
  shows "uint amt < uint cur - uint pre \<Longrightarrow> \<not> cur < pre \<and> \<not> cur - pre \<le> amt"
    and "uint amt = uint cur - uint pre \<Longrightarrow> \<not> cur < pre \<and> cur - pre \<le> amt"
proof -
  have nonneg: "0 \<le> uint amt" by simp
  { assume lt: "uint amt < uint cur - uint pre"
    from lt nonneg have "\<not> cur < pre" unfolding word_less_def by linarith
    moreover from this lt have "\<not> cur - pre \<le> amt" by (simp add: covers_iff)
    ultimately show "\<not> cur < pre \<and> \<not> cur - pre \<le> amt" by simp }
  { assume eq: "uint amt = uint cur - uint pre"
    from eq nonneg have "\<not> cur < pre" unfolding word_less_def by linarith
    moreover from this eq have "cur - pre \<le> amt" by (simp add: covers_iff)
    ultimately show "\<not> cur < pre \<and> cur - pre \<le> amt" by simp }
qed

text \<open>
  C3: for add_proposal (and add_update) with the phase, the receiver and the absence of
  the key as required: a payment strictly below the minimum balance after the write minus
  the one before it aborts the call, and the committed mapping has no entry at the key; a
  payment equal to that difference makes the call succeed with the entry written.
\<close>

theorem funding_exactness:
  "(receiver pay = app_address e \<and> minted_asa s = 0
     \<and> proposals s (encode_key (sender e) i) = None \<longrightarrow>
     (uint (amount pay)
        < uint (min_balance e (s\<lparr>proposals := (proposals s)(encode_key (sender e) i \<mapsto> p)\<rparr>))
          - uint (min_balance e s) \<longrightarrow>
        isl (add_proposal e p i pay s)
        \<and> proposals (commit e (AddProposal p i pay) s) (encode_key (sender e) i) = None)
     \<and> (uint (amount pay)
        = uint (min_balance e (s\<lparr>proposals := (proposals s)(encode_key (sender e) i \<mapsto> p)\<rparr>))
          - uint (min_balance e s) \<longrightarrow>
        add_proposal e p i pay s
          = Inr (s\<lparr>proposals := (proposals s)(encode_key (sender e) i \<mapsto> p)\<rparr>, [])))
  \<and> (receiver pay = app_address e \<and> minted_asa s \<noteq> 0
     \<and> update_proposals s (encode_key (sender e) i) = None \<longrightarrow>
     (uint (amount pay)
        < uint (min_balance e (s\<lparr>update_proposals := (update_proposals s)(encode_key (sender e) i \<mapsto> r)\<rparr>))
          - uint (min_balance e s) \<longrightarrow>
        isl (add_update e r i pay s)
        \<and> update_proposals (commit e (AddUpdate r i pay) s) (encode_key (sender e) i) = None)
     \<and> (uint (amount pay)
        = uint (min_balance e (s\<lparr>update_proposals := (update_proposals s)(encode_key (sender e) i \<mapsto> r)\<rparr>))
          - uint (min_balance e s) \<longrightarrow>
        add_update e r i pay s
          = Inr (s\<lparr>update_proposals := (update_proposals s)(encode_key (sender e) i \<mapsto> r)\<rparr>, [])))"
  by (auto simp add: add_proposal_def add_update_def commit_def Let_def dest: funding_check)

theorem funding_exactness_witness:
  "receiver (payment_of 18499) = app_address (metered_env alice) \<and> minted_asa create = 0
   \<and> proposals create (encode_key (sender (metered_env alice)) 1) = None
   \<and> uint (amount (payment_of 18499))
        < uint (min_balance (metered_env alice)
                 (create\<lparr>proposals := (proposals create)(encode_key (sender (metered_env alice)) 1 \<mapsto> art)\<rparr>))
          - uint (min_balance (metered_env alice) create)
   \<and> isl (add_proposal (metered_env alice) art 1 (payment_of 18499) create)
   \<and> proposals (commit (metered_env alice) (AddProposal art 1 (payment_of 18499)) create)
        (encode_key (sender (metered_env alice)) 1) = None
   \<and> uint (amount (payment_of 18500))
        = uint (min_balance (metered_env alice)
                 (create\<lparr>proposals := (proposals create)(encode_key (sender (metered_env alice)) 1 \<mapsto> art)\<rparr>))
          - uint (min_balance (metered_env alice) create)
   \<and> add_proposal (metered_env alice) art 1 (payment_of 18500) create
        = Inr (create\<lparr>proposals := (proposals create)(encode_key (sender (metered_env alice)) 1 \<mapsto> art)\<rparr>, [])
   \<and> minted_asa (create\<lparr>minted_asa := 7\<rparr>) \<noteq> 0
   \<and> update_proposals (create\<lparr>minted_asa := 7\<rparr>) (encode_key (sender (metered_env alice)) 1) = None
   \<and> isl (add_update (metered_env alice) bob 1 (payment_of 18499) (create\<lparr>minted_asa := 7\<rparr>))
   \<and> update_proposals (commit (metered_env alice) (AddUpdate bob 1 (payment_of 18499)) (create\<lparr>minted_asa := 7\<rparr>))
        (encode_key (sender (metered_env alice)) 1) = None
   \<and> add_update (metered_env alice) bob 1 (payment_of 18500) (create\<lparr>minted_asa := 7\<rparr>)
        = Inr (create\<lparr>minted_asa := 7,
                 update_proposals := [encode_key (sender (metered_env alice)) 1 \<mapsto> bob]\<rparr>, [])"
  using funding_exactness [of "payment_of 18499" "metered_env alice" create 1 art bob]
        funding_exactness [of "payment_of 18500" "metered_env alice" create 1 art bob]
        funding_exactness [of "payment_of 18499" "metered_env alice" "create\<lparr>minted_asa := 7\<rparr>" 1 art bob]
        funding_exactness [of "payment_of 18500" "metered_env alice" "create\<lparr>minted_asa := 7\<rparr>" 1 art bob]
  by (simp add: create_def metered_env_def payment_of_def)

section \<open>Voting\<close>

text \<open>
  C8: a vote for a key that has no entry in proposals, by a sender without has_voted entry
  before the mint, succeeds. The tally stored afterwards is the previous one plus one,
  where a key without tally starts from zero and so ends at one; the key becomes
  winning_proposal exactly when the new tally exceeds winning_proposal_votes. The only
  state excluded is a stored tally of 2^64 - 1, where the addition fails.
\<close>

theorem phantom_tally:
  "proposals s (encode_key a i) = None \<and> minted_asa s = 0 \<and> has_voted s (sender e) = None
     \<and> votes s (encode_key a i) \<noteq> Some (- 1) \<longrightarrow>
   (\<exists>s'. vote e a i s = Inr (s', [])
      \<and> proposals s' (encode_key a i) = None
      \<and> votes s' (encode_key a i) = Some (tally_of (votes s) (encode_key a i) + 1)
      \<and> (votes s (encode_key a i) = None \<longrightarrow> votes s' (encode_key a i) = Some 1)
      \<and> (winning_proposal_votes s < tally_of (votes s) (encode_key a i) + 1 \<longrightarrow>
            winning_proposal s' = encode_key a i
            \<and> winning_proposal_votes s' = tally_of (votes s) (encode_key a i) + 1)
      \<and> (\<not> winning_proposal_votes s < tally_of (votes s) (encode_key a i) + 1 \<longrightarrow>
            winning_proposal s' = winning_proposal s
            \<and> winning_proposal_votes s' = winning_proposal_votes s))"
  by (cases "votes s (encode_key a i)") (simp_all add: vote_result tally_of_def)

theorem phantom_tally_witness:
  "proposals create (encode_key bob 1) = None \<and> minted_asa create = 0
   \<and> has_voted create (sender (flat_env alice)) = None
   \<and> votes create (encode_key bob 1) \<noteq> Some (- 1)
   \<and> votes create (encode_key bob 1) = None
   \<and> winning_proposal_votes create < tally_of (votes create) (encode_key bob 1) + 1
   \<and> (\<exists>s'. vote (flat_env alice) bob 1 create = Inr (s', [])
          \<and> proposals s' (encode_key bob 1) = None
          \<and> votes s' (encode_key bob 1) = Some 1
          \<and> winning_proposal s' = encode_key bob 1
          \<and> winning_proposal_votes s' = 1)
   \<and> proposals (run open_calls create) (encode_key bob 1) = None
   \<and> minted_asa (run open_calls create) = 0
   \<and> has_voted (run open_calls create) (sender (flat_env alice)) = None
   \<and> votes (run open_calls create) (encode_key bob 1) \<noteq> Some (- 1)
   \<and> \<not> winning_proposal_votes (run open_calls create)
          < tally_of (votes (run open_calls create)) (encode_key bob 1) + 1
   \<and> (\<exists>s'. vote (flat_env alice) bob 1 (run open_calls create) = Inr (s', [])
          \<and> votes s' (encode_key bob 1) = Some 1
          \<and> winning_proposal s' = encode_key alice 1
          \<and> winning_proposal_votes s' = 1)"
proof -
  let ?k = "encode_key bob 1" and ?e = "flat_env alice" and ?s = "run open_calls create"
  have h1: "proposals create ?k = None \<and> minted_asa create = 0
            \<and> has_voted create (sender ?e) = None \<and> votes create ?k \<noteq> Some (- 1)"
    by (simp add: create_def)
  have n1: "votes create ?k = None" by (simp add: create_def)
  have t1: "tally_of (votes create) ?k + 1 = 1" by (simp add: create_def tally_of_def)
  have w1: "winning_proposal_votes create < tally_of (votes create) ?k + 1"
    by (simp add: create_def tally_of_def)
  from phantom_tally [of create bob 1 ?e] h1 n1 w1 t1
  have c1: "\<exists>s'. vote ?e bob 1 create = Inr (s', [])
          \<and> proposals s' ?k = None \<and> votes s' ?k = Some 1
          \<and> winning_proposal s' = ?k \<and> winning_proposal_votes s' = 1"
    by metis
  have h2: "proposals ?s ?k = None \<and> minted_asa ?s = 0
            \<and> has_voted ?s (sender ?e) = None \<and> votes ?s ?k \<noteq> Some (- 1)"
    using key_facts by (simp add: open_state flat_env_def)
  have t2: "tally_of (votes ?s) ?k + 1 = 1"
    using key_facts by (simp add: open_state tally_of_def)
  have w2: "\<not> winning_proposal_votes ?s < tally_of (votes ?s) ?k + 1"
    by (simp add: t2) (simp add: open_state)
  have p2: "winning_proposal ?s = encode_key alice 1 \<and> winning_proposal_votes ?s = 1"
    by (simp add: open_state)
  from phantom_tally [of ?s bob 1 ?e] h2 w2 t2 p2
  have c2: "\<exists>s'. vote ?e bob 1 ?s = Inr (s', [])
          \<and> votes s' ?k = Some 1
          \<and> winning_proposal s' = encode_key alice 1 \<and> winning_proposal_votes s' = 1"
    by metis
  from h1 n1 w1 c1 h2 w2 c2 show ?thesis by blast
qed

lemma has_voted_exec:
  "exec e c s = Inr (s', txs) \<Longrightarrow> has_voted s a \<noteq> None \<Longrightarrow> has_voted s' a \<noteq> None"
  by (cases c)
     (auto simp add: add_proposal_def vote_result mint_def update_def add_update_def
        vote_on_update_result Let_def split: if_splits option.splits)

lemma has_voted_commit: "has_voted s a \<noteq> None \<Longrightarrow> has_voted (commit e c s) a \<noteq> None"
  by (cases "exec e c s") (auto simp add: commit_def dest: has_voted_exec)

lemma has_voted_run: "has_voted s a \<noteq> None \<Longrightarrow> has_voted (run cs s) a \<noteq> None"
proof (induction cs arbitrary: s)
  case Nil
  then show ?case by simp
next
  case (Cons x cs)
  obtain e c where x: "x = (e, c)" by (cases x)
  from Cons.prems have "has_voted (commit e c s) a \<noteq> None" by (rule has_voted_commit)
  then have "has_voted (run cs (commit e c s)) a \<noteq> None" by (rule Cons.IH)
  with x show ?case by simp
qed

text \<open>
  C4: once a vote of an account has succeeded, after any further sequence of calls every
  vote sent by that account aborts, whatever proposal it names, and the committed state is
  the state before the call. The has_voted entry of the account is present in that state;
  the Assert that fails is the has_voted one while minted_asa is 0 and the phase gate,
  which comes first in the source, once the asset is minted.
\<close>

theorem one_vote_per_account:
  "vote e a i s = Inr (s1, txs) \<and> sender e' = sender e \<longrightarrow>
     has_voted (run cs s1) (sender e) \<noteq> None
     \<and> vote e' a' i' (run cs s1)
         = Inl (if minted_asa (run cs s1) = 0 then AlreadyVoted else PhaseViolation)
     \<and> commit e' (Vote a' i') (run cs s1) = run cs s1"
proof (intro impI, elim conjE)
  assume v: "vote e a i s = Inr (s1, txs)" and snd: "sender e' = sender e"
  from v have "has_voted s1 (sender e) \<noteq> None"
    by (auto simp add: vote_result split: if_splits)
  then have hv: "has_voted (run cs s1) (sender e) \<noteq> None" by (rule has_voted_run)
  with snd have ab: "vote e' a' i' (run cs s1)
         = Inl (if minted_asa (run cs s1) = 0 then AlreadyVoted else PhaseViolation)"
    by (simp add: vote_result)
  then have "commit e' (Vote a' i') (run cs s1) = run cs s1"
    by (simp add: commit_def)
  with hv ab show "has_voted (run cs s1) (sender e) \<noteq> None
     \<and> vote e' a' i' (run cs s1)
         = Inl (if minted_asa (run cs s1) = 0 then AlreadyVoted else PhaseViolation)
     \<and> commit e' (Vote a' i') (run cs s1) = run cs s1" by simp
qed

theorem one_vote_per_account_witness:
  "vote (flat_env bob) alice 1 create = Inr (first_vote, [])
   \<and> sender (flat_env bob) = sender (flat_env bob)
   \<and> vote (flat_env bob) alice 2 (run [(flat_env alice, Vote bob 1)] first_vote)
       = Inl AlreadyVoted
   \<and> commit (flat_env bob) (Vote alice 2) (run [(flat_env alice, Vote bob 1)] first_vote)
       = run [(flat_env alice, Vote bob 1)] first_vote
   \<and> vote (flat_env bob) alice 2
        (run [(flat_env alice, AddProposal art 1 free_payment), (flat_env alice, Mint)] first_vote)
       = Inl PhaseViolation"
  using first_vote_result
    one_vote_per_account [of "flat_env bob" alice 1 create first_vote "[]" "flat_env bob"
       "[(flat_env alice, Vote bob 1)]" alice 2]
    one_vote_per_account [of "flat_env bob" alice 1 create first_vote "[]" "flat_env bob"
       "[(flat_env alice, AddProposal art 1 free_payment), (flat_env alice, Mint)]" alice 2]
  by (simp only: first_vote_open first_vote_minted) simp

lemma winner_exec:
  "exec e c s = Inr (s', txs) \<Longrightarrow>
    (winning_proposal_votes s' = winning_proposal_votes s \<and> winning_proposal s' = winning_proposal s)
    \<or> (\<exists>a i. c = Vote a i
          \<and> winning_proposal_votes s < tally_of (votes s) (encode_key a i) + 1
          \<and> votes s' (encode_key a i) = Some (tally_of (votes s) (encode_key a i) + 1)
          \<and> winning_proposal_votes s' = tally_of (votes s) (encode_key a i) + 1
          \<and> winning_proposal s' = encode_key a i)"
  by (cases c)
     (auto simp add: add_proposal_def vote_result mint_def update_def add_update_def
        vote_on_update_result Let_def split: if_splits option.splits)

lemma winner_commit:
  "(winning_proposal_votes (commit e c s) = winning_proposal_votes s
      \<and> winning_proposal (commit e c s) = winning_proposal s)
    \<or> (\<exists>a i. c = Vote a i
          \<and> winning_proposal_votes s < tally_of (votes s) (encode_key a i) + 1
          \<and> votes (commit e c s) (encode_key a i) = Some (tally_of (votes s) (encode_key a i) + 1)
          \<and> winning_proposal_votes (commit e c s) = tally_of (votes s) (encode_key a i) + 1
          \<and> winning_proposal (commit e c s) = encode_key a i)"
proof (cases "exec e c s")
  case (Inl err)
  then show ?thesis by (simp add: commit_def)
next
  case (Inr r)
  obtain s' txs where r: "r = (s', txs)" by (cases r)
  with Inr have "commit e c s = s'" by (simp add: commit_def)
  with winner_exec [of e c s s' txs] Inr r show ?thesis by simp
qed

lemma winner_votes_commit:
  "winning_proposal_votes s \<le> winning_proposal_votes (commit e c s)"
  using winner_commit [of e c s] by auto

lemma winner_votes_run:
  "winning_proposal_votes s \<le> winning_proposal_votes (run cs s)"
proof (induction cs arbitrary: s)
  case Nil
  show ?case by simp
next
  case (Cons x cs)
  obtain e c where x: "x = (e, c)" by (cases x)
  have "winning_proposal_votes s \<le> winning_proposal_votes (commit e c s)"
    by (rule winner_votes_commit)
  also have "\<dots> \<le> winning_proposal_votes (run cs (commit e c s))" by (rule Cons.IH)
  finally show ?case using x by simp
qed

text \<open>
  C5: winning_proposal_votes never decreases along a sequence of calls. A call that
  changes it (or winning_proposal) is a vote whose freshly incremented tally is strictly
  greater than the previous winning_proposal_votes, and that call sets both values; a vote
  whose new tally is at most the recorded count leaves both as they were.
\<close>

theorem winner_monotonicity:
  "winning_proposal_votes s \<le> winning_proposal_votes (run cs s)
   \<and> (winning_proposal_votes (commit e c s) \<noteq> winning_proposal_votes s
        \<or> winning_proposal (commit e c s) \<noteq> winning_proposal s \<longrightarrow>
        (\<exists>a i. c = Vote a i
           \<and> winning_proposal_votes s < tally_of (votes s) (encode_key a i) + 1
           \<and> votes (commit e c s) (encode_key a i) = Some (tally_of (votes s) (encode_key a i) + 1)
           \<and> winning_proposal_votes (commit e c s) = tally_of (votes s) (encode_key a i) + 1
           \<and> winning_proposal (commit e c s) = encode_key a i))
   \<and> (tally_of (votes s) (encode_key a' i') + 1 \<le> winning_proposal_votes s \<longrightarrow>
        winning_proposal_votes (commit e (Vote a' i') s) = winning_proposal_votes s
        \<and> winning_proposal (commit e (Vote a' i') s) = winning_proposal s)"
proof (intro conjI impI)
  show "winning_proposal_votes s \<le> winning_proposal_votes (run cs s)"
    by (rule winner_votes_run)
next
  assume "winning_proposal_votes (commit e c s) \<noteq> winning_proposal_votes s
        \<or> winning_proposal (commit e c s) \<noteq> winning_proposal s"
  with winner_commit [of e c s]
  show "\<exists>a i. c = Vote a i
           \<and> winning_proposal_votes s < tally_of (votes s) (encode_key a i) + 1
           \<and> votes (commit e c s) (encode_key a i) = Some (tally_of (votes s) (encode_key a i) + 1)
           \<and> winning_proposal_votes (commit e c s) = tally_of (votes s) (encode_key a i) + 1
           \<and> winning_proposal (commit e c s) = encode_key a i" by blast
next
  assume le: "tally_of (votes s) (encode_key a' i') + 1 \<le> winning_proposal_votes s"
  with winner_commit [of e "Vote a' i'" s]
  show "winning_proposal_votes (commit e (Vote a' i') s) = winning_proposal_votes s"
    by auto
  from le winner_commit [of e "Vote a' i'" s]
  show "winning_proposal (commit e (Vote a' i') s) = winning_proposal s"
    by auto
qed

theorem winner_monotonicity_witness:
  "winning_proposal_votes create \<le> winning_proposal_votes (run open_calls create)
   \<and> winning_proposal_votes (commit (flat_env bob) (Vote alice 1) create)
        \<noteq> winning_proposal_votes create
   \<and> winning_proposal_votes (commit (flat_env bob) (Vote alice 1) create) = 1
   \<and> winning_proposal (commit (flat_env bob) (Vote alice 1) create) = encode_key alice 1
   \<and> tally_of (votes (run open_calls create)) (encode_key bob 1) + 1
        \<le> winning_proposal_votes (run open_calls create)
   \<and> winning_proposal_votes (commit (flat_env alice) (Vote bob 1) (run open_calls create))
        = winning_proposal_votes (run open_calls create)
   \<and> winning_proposal (commit (flat_env alice) (Vote bob 1) (run open_calls create))
        = winning_proposal (run open_calls create)"
proof -
  have ch: "winning_proposal_votes (commit (flat_env bob) (Vote alice 1) create)
        \<noteq> winning_proposal_votes create"
    by (simp add: commit_def first_vote_result) (simp add: first_vote_def create_def)
  have t: "tally_of (votes create) (encode_key alice 1) + 1 = 1"
    by (simp add: create_def tally_of_def)
  have le: "tally_of (votes (run open_calls create)) (encode_key bob 1) + 1
        \<le> winning_proposal_votes (run open_calls create)"
    using key_facts by (simp add: open_state tally_of_def)
  from winner_monotonicity [of create open_calls "flat_env bob" "Vote alice 1" bob 1] ch t
  have c1: "winning_proposal_votes create \<le> winning_proposal_votes (run open_calls create)
     \<and> winning_proposal_votes (commit (flat_env bob) (Vote alice 1) create) = 1
     \<and> winning_proposal (commit (flat_env bob) (Vote alice 1) create) = encode_key alice 1"
    by auto
  from winner_monotonicity [of "run open_calls create" "[]" "flat_env alice" "Vote bob 1" bob 1] le
  have c2: "winning_proposal_votes (commit (flat_env alice) (Vote bob 1) (run open_calls create))
        = winning_proposal_votes (run open_calls create)
   \<and> winning_proposal (commit (flat_env alice) (Vote bob 1) (run open_calls create))
        = winning_proposal (run open_calls create)"
    by blast
  from ch le c1 c2 show ?thesis by blast
qed

section \<open>Minting\<close>

lemma minted_exec:
  "exec e c s = Inr (s', txs) \<Longrightarrow> minted_asa s \<noteq> 0 \<Longrightarrow> minted_asa s' = minted_asa s"
  by (cases c)
     (auto simp add: add_proposal_def vote_result mint_def update_def add_update_def
        vote_on_update_result Let_def split: if_splits option.splits)

lemma minted_commit: "minted_asa s \<noteq> 0 \<Longrightarrow> minted_asa (commit e c s) = minted_asa s"
  by (cases "exec e c s") (auto simp add: commit_def dest: minted_exec)

lemma minted_run: "minted_asa s \<noteq> 0 \<Longrightarrow> minted_asa (run cs s) = minted_asa s"
proof (induction cs arbitrary: s)
  case Nil
  then show ?case by simp
next
  case (Cons x cs)
  obtain e c where x: "x = (e, c)" by (cases x)
  from Cons.prems have m: "minted_asa (commit e c s) = minted_asa s" by (rule minted_commit)
  with Cons.prems have "minted_asa (commit e c s) \<noteq> 0" by simp
  then have "minted_asa (run cs (commit e c s)) = minted_asa (commit e c s)" by (rule Cons.IH)
  with x m show ?case by simp
qed

text \<open>
  C6: a successful mint starts from minted_asa = 0 and stores the id returned for the
  created asset; the ledger never numbers an asset 0, so minted_asa is nonzero afterwards,
  and after any further sequence of calls mint aborts on its phase gate.
\<close>

theorem mint_at_most_once:
  "mint e s = Inr (s1, txs) \<and> (\<forall>tx. submit e tx \<noteq> Some 0) \<longrightarrow>
     minted_asa s = 0
     \<and> minted_asa s1 \<noteq> 0
     \<and> (\<exists>tx. txs = [tx] \<and> submit e tx = Some (minted_asa s1))
     \<and> mint e' (run cs s1) = Inl PhaseViolation
     \<and> commit e' Mint (run cs s1) = run cs s1"
proof (intro impI, elim conjE)
  assume m: "mint e s = Inr (s1, txs)" and ids: "\<forall>tx. submit e tx \<noteq> Some 0"
  from m have z: "minted_asa s = 0" by (auto simp add: mint_def split: if_splits)
  from m obtain tx where tx: "txs = [tx]" "submit e tx = Some (minted_asa s1)"
    by (auto simp add: mint_def Let_def split: if_splits option.splits)
  with ids have nz: "minted_asa s1 \<noteq> 0" by metis
  then have "minted_asa (run cs s1) \<noteq> 0" by (simp add: minted_run)
  then have ab: "mint e' (run cs s1) = Inl PhaseViolation" by (simp add: mint_def)
  then have "commit e' Mint (run cs s1) = run cs s1" by (simp add: commit_def)
  with z nz tx ab show "minted_asa s = 0
     \<and> minted_asa s1 \<noteq> 0
     \<and> (\<exists>tx. txs = [tx] \<and> submit e tx = Some (minted_asa s1))
     \<and> mint e' (run cs s1) = Inl PhaseViolation
     \<and> commit e' Mint (run cs s1) = run cs s1" by simp
qed

theorem mint_at_most_once_witness:
  "mint (flat_env alice) (run open_calls create)
     = Inr ((run open_calls create)\<lparr>minted_asa := 7\<rparr>,
            [AssetCreate ''Art'' ''ART'' alice dao asset_url 1 0])
   \<and> (\<forall>tx. submit (flat_env alice) tx \<noteq> Some 0)
   \<and> minted_asa (run open_calls create) = 0
   \<and> minted_asa ((run open_calls create)\<lparr>minted_asa := 7\<rparr>) \<noteq> 0
   \<and> mint (flat_env bob)
        (run [(flat_env bob, Mint), (flat_env bob, Update 7)]
           ((run open_calls create)\<lparr>minted_asa := 7\<rparr>)) = Inl PhaseViolation"
proof -
  have m: "mint (flat_env alice) (run open_calls create)
     = Inr ((run open_calls create)\<lparr>minted_asa := 7\<rparr>,
            [AssetCreate ''Art'' ''ART'' alice dao asset_url 1 0])"
    by (simp add: open_state) (simp add: mint_def flat_env_def art_def)
  have ids: "\<forall>tx. submit (flat_env alice) tx \<noteq> Some 0" by (simp add: flat_env_def)
  from mint_at_most_once [of "flat_env alice" "run open_calls create"
       "(run open_calls create)\<lparr>minted_asa := 7\<rparr>"
       "[AssetCreate ''Art'' ''ART'' alice dao asset_url 1 0]" "flat_env bob"
       "[(flat_env bob, Mint), (flat_env bob, Update 7)]"] m ids
  show ?thesis by blast
qed

section \<open>The recorded winner and the tallies\<close>

lemma tally_inv_create: "tally_inv Map.empty 0 k"
  by (simp add: tally_inv_def)

lemma tally_inv_step:
  assumes inv: "tally_inv m w k" and t: "tally_of m (encode_key a i) \<noteq> - 1"
  shows "tally_inv (m(encode_key a i \<mapsto> tally_of m (encode_key a i) + 1))
           (if w < tally_of m (encode_key a i) + 1 then tally_of m (encode_key a i) + 1 else w)
           (if w < tally_of m (encode_key a i) + 1 then encode_key a i else k)"
proof (cases "w < tally_of m (encode_key a i) + 1")
  case True
  from inv have le: "\<And>x n. m x = Some n \<Longrightarrow> n \<le> w" and fin: "finite (dom m)"
    by (auto simp add: tally_inv_def)
  from True le have "\<And>x n. m x = Some n \<Longrightarrow> n \<le> tally_of m (encode_key a i) + 1"
    by (meson less_imp_le order_trans)
  with True fin t show ?thesis
    by (auto simp add: tally_inv_def inc_nonzero)
next
  case False
  from inv have le: "\<And>x n. m x = Some n \<Longrightarrow> n \<le> w" and fin: "finite (dom m)"
    by (auto simp add: tally_inv_def)
  from False have tw: "tally_of m (encode_key a i) + 1 \<le> w" by simp
  from t have pos: "tally_of m (encode_key a i) < tally_of m (encode_key a i) + 1"
    by (rule inc_greater)
  with tw have lt: "tally_of m (encode_key a i) < w" by simp
  then have wnz: "w \<noteq> 0" by (metis word_not_simps(1))
  with inv have k: "m k = Some w" and enc: "\<exists>a i. k = encode_key a i"
    by (auto simp add: tally_inv_def)
  from k lt have "k \<noteq> encode_key a i" by (auto simp add: tally_of_def)
  with False fin le tw wnz k enc show ?thesis
    by (auto simp add: tally_inv_def)
qed

lemma tally_inv_max:
  assumes "tally_inv m w k"
  shows "w = max_tally m \<and> (max_tally m \<noteq> 0 \<longrightarrow> m k = Some (max_tally m) \<and> (\<exists>a i. k = encode_key a i))"
proof (cases "w = 0")
  case True
  with assms show ?thesis by (simp add: tally_inv_def max_tally_def)
next
  case False
  with assms have k: "m k = Some w" and enc: "\<exists>a i. k = encode_key a i"
    and le: "\<And>x n. m x = Some n \<Longrightarrow> n \<le> w" and fin: "finite (dom m)"
    by (auto simp add: tally_inv_def)
  from k have ne: "m \<noteq> Map.empty" by auto
  from k have "w \<in> ran m" by (auto simp add: ran_def)
  moreover from le have "\<And>n. n \<in> ran m \<Longrightarrow> n \<le> w" by (auto simp add: ran_def)
  moreover from fin have "finite (ran m)" by (rule finite_ran)
  ultimately have "Max (ran m) = w" by (intro Max_eqI) auto
  with ne k enc show ?thesis by (simp add: max_tally_def)
qed

lemma ballots_exec:
  assumes "exec e c s = Inr (s', txs)"
    and "tally_inv (votes s) (winning_proposal_votes s) (winning_proposal s)"
    and "tally_inv (update_votes s) (winning_update_votes s) (winning_update s)"
  shows "tally_inv (votes s') (winning_proposal_votes s') (winning_proposal s')
       \<and> tally_inv (update_votes s') (winning_update_votes s') (winning_update s')"
proof (cases c)
  case (Vote a i)
  with assms(1) have t: "tally_of (votes s) (encode_key a i) \<noteq> - 1"
    by (auto simp add: vote_result split: if_splits)
  from tally_inv_step [OF assms(2) t] assms(1,3) Vote show ?thesis
    by (auto simp add: vote_result split: if_splits)
next
  case (VoteOnUpdate a i)
  with assms(1) have t: "tally_of (update_votes s) (encode_key a i) \<noteq> - 1"
    by (auto simp add: vote_on_update_result split: if_splits)
  from tally_inv_step [OF assms(3) t] assms(1,2) VoteOnUpdate show ?thesis
    by (auto simp add: vote_on_update_result split: if_splits)
next
  case (AddProposal p i pay)
  with assms show ?thesis
    by (auto simp add: add_proposal_def Let_def split: if_splits)
next
  case Mint
  with assms show ?thesis
    by (auto simp add: mint_def Let_def split: if_splits option.splits)
next
  case (Update asa)
  with assms show ?thesis
    by (auto simp add: update_def Let_def split: if_splits option.splits)
next
  case (AddUpdate r i pay)
  with assms show ?thesis
    by (auto simp add: add_update_def Let_def split: if_splits)
qed

lemma reachable_ballots:
  "reachable s \<Longrightarrow>
     tally_inv (votes s) (winning_proposal_votes s) (winning_proposal s)
     \<and> tally_inv (update_votes s) (winning_update_votes s) (winning_update s)"
proof (induction rule: reachable.induct)
  case reachable_create
  show ?case by (simp add: create_def tally_inv_create)
next
  case (reachable_call s e c s' txs)
  then show ?case using ballots_exec by blast
qed

lemma reachable_commit: "reachable s \<Longrightarrow> reachable (commit e c s)"
proof (cases "exec e c s")
  case (Inl err)
  assume "reachable s"
  with Inl show ?thesis by (simp add: commit_def)
next
  case (Inr r)
  assume rs: "reachable s"
  obtain s' txs where r: "r = (s', txs)" by (cases r)
  with Inr rs have "reachable s'" by (auto intro: reachable_call)
  with Inr r show ?thesis by (simp add: commit_def)
qed

lemma reachable_run: "reachable s \<Longrightarrow> reachable (run cs s)"
proof (induction cs arbitrary: s)
  case Nil
  then show ?case by simp
next
  case (Cons x cs)
  obtain e c where x: "x = (e, c)" by (cases x)
  from Cons.prems have "reachable (commit e c s)" by (rule reachable_commit)
  then have "reachable (run cs (commit e c s))" by (rule Cons.IH)
  with x show ?case by simp
qed

text \<open>
  C9: in every state reachable from create() by successful calls, winning_proposal_votes
  is the largest tally of votes and winning_update_votes the largest tally of update_votes
  (0 for an empty mapping); when that maximum is not 0, winning_proposal (winning_update)
  is an encoded key whose entry holds it.
\<close>

theorem winner_is_max_tally:
  "reachable s \<Longrightarrow>
     winning_proposal_votes s = max_tally (votes s)
     \<and> winning_update_votes s = max_tally (update_votes s)
     \<and> (max_tally (votes s) \<noteq> 0 \<longrightarrow>
          votes s (winning_proposal s) = Some (max_tally (votes s))
          \<and> (\<exists>a i. winning_proposal s = encode_key a i))
     \<and> (max_tally (update_votes s) \<noteq> 0 \<longrightarrow>
          update_votes s (winning_update s) = Some (max_tally (update_votes s))
          \<and> (\<exists>a i. winning_update s = encode_key a i))"
  using reachable_ballots [of s]
        tally_inv_max [of "votes s" "winning_proposal_votes s" "winning_proposal s"]
        tally_inv_max [of "update_votes s" "winning_update_votes s" "winning_update s"]
  by blast

theorem winner_is_max_tally_witness:
  "reachable (run lifecycle_calls create)
   \<and> max_tally (votes (run lifecycle_calls create)) = 1
   \<and> max_tally (update_votes (run lifecycle_calls create)) = 1
   \<and> votes (run lifecycle_calls create) (winning_proposal (run lifecycle_calls create)) = Some 1
   \<and> update_votes (run lifecycle_calls create) (winning_update (run lifecycle_calls create)) = Some 1
   \<and> (\<exists>a i. winning_proposal (run lifecycle_calls create) = encode_key a i)
   \<and> (\<exists>a i. winning_update (run lifecycle_calls create) = encode_key a i)"
proof -
  have r: "reachable (run lifecycle_calls create)"
    by (rule reachable_run [OF reachable_create])
  have w: "winning_proposal_votes (run lifecycle_calls create) = 1
           \<and> winning_update_votes (run lifecycle_calls create) = 1"
    by (simp add: lifecycle_state)
  from winner_is_max_tally [OF r] w r show ?thesis by auto
qed

end
